theory Spec2Isabelle
  imports Complex_Main "HOL-Library.Log_Nat"
begin

section \<open>Character classes and the password record (modules/passutils.py)\<close>

text \<open>
  A Python string is modelled as a HOL \<open>string\<close>: a list of characters, each the
  code point of a Python character, below 256 as are all characters of the literals of
  the source. \<open>password_has_chartype\<close> does not depend on the type of the characters
  and is polymorphic in it. Every
  character of the six classes is ASCII, and each class is the set built from the list
  of one-character strings the source writes (the double quote, the single quote, the
  backslash and the backquote are given by their codes 0x22, 0x27, 0x5C and 0x60).
\<close>

definition HIGH_COMP_SYMB :: "char set" where
  "HIGH_COMP_SYMB = set [CHR ''!'', CHR ''#'', CHR ''$'', CHR ''%'', CHR ''&'', CHR ''*'',
     CHR ''@'', CHR ''^'']"

definition MED_COMP_SYMB :: "char set" where
  "MED_COMP_SYMB = set [CHR ''('', CHR '')'', CHR ''-'', CHR ''.'', CHR ''_'']"

definition LOW_COMP_SYMB :: "char set" where
  "LOW_COMP_SYMB = set [CHR 0x22, CHR 0x27, CHR ''+'', CHR '','', CHR ''/'', CHR '':'',
     CHR '';'', CHR ''<'', CHR ''='', CHR ''>'', CHR ''?'', CHR ''['', CHR 0x5C, CHR '']'',
     CHR 0x60, CHR ''{'', CHR ''|'', CHR ''}'', CHR ''~'']"

definition DIGITS :: "char set" where
  "DIGITS = set ''0123456789''"

definition LOWER :: "char set" where
  "LOWER = set ''abcdefghijklmnopqrstuvwxyz''"

definition UPPER :: "char set" where
  "UPPER = set ''ABCDEFGHIJKLMNOPQRSTUVWXYZ''"

definition VALID_PASS_CHARS :: "char set" where
  "VALID_PASS_CHARS =
     LOW_COMP_SYMB \<union> MED_COMP_SYMB \<union> HIGH_COMP_SYMB \<union> DIGITS \<union> LOWER \<union> UPPER"

text \<open>Python's \<open>any\<close> and \<open>all\<close> over the values a generator yields, left to right.\<close>

fun any_py :: "bool list \<Rightarrow> bool" where
  "any_py [] = False"
| "any_py (b # bs) = (if b then True else any_py bs)"

fun all_py :: "bool list \<Rightarrow> bool" where
  "all_py [] = True"
| "all_py (b # bs) = (if b then all_py bs else False)"

definition password_has_chartype :: "'a list \<Rightarrow> 'a set \<Rightarrow> bool" where
  "password_has_chartype password char_list =
     any_py (map (\<lambda>char. char \<in> char_list) password)"

definition is_password_vaild :: "string \<Rightarrow> bool" where
  "is_password_vaild password = all_py (map (\<lambda>char. char \<in> VALID_PASS_CHARS) password)"

text \<open>
  The class \<open>PasswordInfo\<close>. Its \<open>length\<close> attribute is only ever \<open>0\<close> or a
  \<open>len(password)\<close>, and its \<open>security\<close> attribute one of the literals \<open>0\<close> to \<open>4\<close>,
  so both are natural numbers; the field \<open>length\<close> is named \<open>length_pi\<close> here.
\<close>

record PasswordInfo =
  length_pi :: nat
  digits :: bool
  lower :: bool
  upper :: bool
  highcompsymb :: bool
  medcompsymb :: bool
  lowcompsymb :: bool
  security :: nat

definition PasswordInfo_init :: PasswordInfo where
  "PasswordInfo_init =
     \<lparr>length_pi = 0, digits = False, lower = False, upper = False, highcompsymb = False,
      medcompsymb = False, lowcompsymb = False, security = 0\<rparr>"

section \<open>The analysis (pypasstool/checkpass.py)\<close>

definition analyze_password_props :: "string \<Rightarrow> PasswordInfo \<Rightarrow> PasswordInfo" where
  "analyze_password_props password passinfo =
     passinfo\<lparr>length_pi := length password,
       digits := password_has_chartype password DIGITS,
       lower := password_has_chartype password LOWER,
       upper := password_has_chartype password UPPER,
       highcompsymb := password_has_chartype password HIGH_COMP_SYMB,
       medcompsymb := password_has_chartype password MED_COMP_SYMB,
       lowcompsymb := password_has_chartype password LOW_COMP_SYMB\<rparr>"

text \<open>\<open>len\<close> of a set is its number of elements, a Python integer.\<close>

definition len_set :: "'a set \<Rightarrow> int" where
  "len_set s = int (card s)"

definition calc_password_combinations :: "PasswordInfo \<Rightarrow> int" where
  "calc_password_combinations passinfo =
     (let charsets =
        [if digits passinfo then len_set DIGITS else 0,
         if lower passinfo then len_set LOWER else 0,
         if upper passinfo then len_set UPPER else 0,
         if highcompsymb passinfo then len_set HIGH_COMP_SYMB else 0,
         if medcompsymb passinfo then len_set HIGH_COMP_SYMB + len_set MED_COMP_SYMB else 0,
         if lowcompsymb passinfo
         then len_set HIGH_COMP_SYMB + len_set MED_COMP_SYMB + len_set LOW_COMP_SYMB else 0]
      in sum_list charsets ^ length_pi passinfo)"

text \<open>The exceptions the analysed functions can raise.\<close>

datatype error = ZeroDivisionError | OverflowError | IndexError | ValueError

subsection \<open>Python floats\<close>

text \<open>
  A Python \<open>float\<close> is an IEEE 754 double: a finite value (a real number here, the
  sign of a zero is not kept: no operation of the source tells \<open>-0.0\<close> from \<open>0.0\<close>),
  an infinity or a NaN. A Python number is an \<open>int\<close> or a \<open>float\<close>.
\<close>

datatype pyfloat = Finite real | PosInf | NegInf | NaN

datatype pynum = PyInt int | PyFloat pyfloat

text \<open>
  Rounding to the nearest double, ties to even. \<open>ilog2 x\<close> is the exponent \<open>e\<close> with
  \<open>2 ^ e \<le> x < 2 ^ (e + 1)\<close> for a positive \<open>x\<close>; a double has 53 significant
  bits, so the spacing of the doubles around \<open>x\<close> is \<open>2 ^ (e - 52)\<close>, where \<open>e\<close>
  does not go below \<open>- 1022\<close> (the subnormal range). \<open>round_double\<close> rounds with an
  unbounded exponent; a result of magnitude \<open>2 ^ 1024\<close> or more is an overflow, which
  an arithmetic operation returns as an infinity.
\<close>

definition round_half_even :: "real \<Rightarrow> int" where
  "round_half_even x =
     (let f = \<lfloor>x\<rfloor>; d = x - real_of_int f
      in if d < 1 / 2 then f else if 1 / 2 < d then f + 1 else if even f then f else f + 1)"

definition ilog2 :: "real \<Rightarrow> int" where
  "ilog2 x = (if 1 \<le> x then bitlen \<lfloor>x\<rfloor> - 1 else - bitlen (\<lceil>1 / x\<rceil> - 1))"

definition double_exp :: "real \<Rightarrow> int" where
  "double_exp x = max (ilog2 \<bar>x\<bar>) (- 1022)"

definition round_double :: "real \<Rightarrow> real" where
  "round_double x =
     (if x = 0 then 0
      else let q = 2 powi (double_exp x - 52)
           in real_of_int (round_half_even (x / q)) * q)"

definition to_double :: "real \<Rightarrow> pyfloat" where
  "to_double x =
     (let r = round_double x
      in if 2 ^ 1024 \<le> r then PosInf else if r \<le> - (2 ^ 1024) then NegInf else Finite r)"

text \<open>
  The conversion of an \<open>int\<close> to a \<open>float\<close> rounds in the same way and raises
  \<open>OverflowError\<close> where the rounded value overflows.
\<close>

definition float_of_int :: "int \<Rightarrow> error + real" where
  "float_of_int i =
     (case to_double (real_of_int i) of Finite r \<Rightarrow> Inr r | _ \<Rightarrow> Inl OverflowError)"

text \<open>
  \<open>a / b\<close> for an \<open>int a\<close>. With an \<open>int b\<close> the quotient of the two integers is
  rounded once, after the test for zero, and an overflow raises \<open>OverflowError\<close>. With
  a \<open>float b\<close> the integer is first converted, then the divisor is tested for zero,
  then the doubles are divided: here an overflow is an infinity, returned silently.
\<close>

definition float_div :: "real \<Rightarrow> pyfloat \<Rightarrow> error + pyfloat" where
  "float_div x b =
     (case b of
        Finite y \<Rightarrow> if y = 0 then Inl ZeroDivisionError else Inr (to_double (x / y))
      | PosInf \<Rightarrow> Inr (Finite 0)
      | NegInf \<Rightarrow> Inr (Finite 0)
      | NaN \<Rightarrow> Inr NaN)"

fun truediv :: "int \<Rightarrow> pynum \<Rightarrow> error + pyfloat" where
  "truediv a (PyInt b) =
     (if b = 0 then Inl ZeroDivisionError
      else case to_double (real_of_int a / real_of_int b) of
             Finite r \<Rightarrow> Inr (Finite r)
           | _ \<Rightarrow> Inl OverflowError)"
| "truediv a (PyFloat b) =
     (case float_of_int a of Inl e \<Rightarrow> Inl e | Inr x \<Rightarrow> float_div x b)"

definition get_bruteforce_time :: "int \<Rightarrow> pynum \<Rightarrow> error + pyfloat" where
  "get_bruteforce_time pass_combinations hashrate = truediv pass_combinations hashrate"

subsection \<open>The security tier\<close>

text \<open>
  \<open>PASSWORD_SECURITY_LIMITS\<close> is a constant of \<open>utils.constants\<close>, which is not among
  the sources: it is the parameter \<open>limits\<close>. A subscript beyond the end of the
  sequence raises \<open>IndexError\<close>. In a chained comparison \<open>a < b <= c\<close> the operand
  \<open>c\<close> is evaluated only when \<open>a < b\<close> holds. The break time is only compared
  here, and comparisons are exact: it is a real number.
\<close>

definition subscript :: "'a list \<Rightarrow> nat \<Rightarrow> error + 'a" where
  "subscript xs i = (if i < length xs then Inr (xs ! i) else Inl IndexError)"

definition le_limit :: "real \<Rightarrow> real list \<Rightarrow> nat \<Rightarrow> error + bool" where
  "le_limit t limits j =
     (case subscript limits j of Inl e \<Rightarrow> Inl e | Inr hi \<Rightarrow> Inr (t \<le> hi))"

definition between_limits :: "real list \<Rightarrow> nat \<Rightarrow> real \<Rightarrow> nat \<Rightarrow> error + bool" where
  "between_limits limits i t j =
     (case subscript limits i of
        Inl e \<Rightarrow> Inl e
      | Inr lo \<Rightarrow> if lo < t then le_limit t limits j else Inr False)"

definition set_password_security ::
  "real \<Rightarrow> real list \<Rightarrow> PasswordInfo \<Rightarrow> error + PasswordInfo" where
  "set_password_security bruteforce_time limits passinfo =
     (case (if 0 \<le> bruteforce_time then le_limit bruteforce_time limits 0 else Inr False) of
        Inl e \<Rightarrow> Inl e
      | Inr c0 \<Rightarrow>
          if c0 then Inr (passinfo\<lparr>security := 0\<rparr>)
          else (case between_limits limits 0 bruteforce_time 1 of
            Inl e \<Rightarrow> Inl e
          | Inr c1 \<Rightarrow>
              if c1 then Inr (passinfo\<lparr>security := 1\<rparr>)
              else (case between_limits limits 1 bruteforce_time 2 of
                Inl e \<Rightarrow> Inl e
              | Inr c2 \<Rightarrow>
                  if c2 then Inr (passinfo\<lparr>security := 2\<rparr>)
                  else (case between_limits limits 2 bruteforce_time 3 of
                    Inl e \<Rightarrow> Inl e
                  | Inr c3 \<Rightarrow>
                      if c3 then Inr (passinfo\<lparr>security := 3\<rparr>)
                      else Inr (passinfo\<lparr>security := 4\<rparr>)))))"

text \<open>
  The messages of \<open>password_improvements\<close>, which the source writes as literals. A
  character beyond ASCII is given by its code point: 0xF1 n with tilde, 0xE9, 0xED, 0xE1
  and 0xFA the letters e, i, a and u with an acute accent, 0xA1 the inverted
  exclamation mark.
\<close>

definition msg_very_secure :: string where
  "msg_very_secure =
     ''Tu contrase'' @ [CHR 0xF1] @ ''a es muy segura. '' @ [CHR 0xA1] @ ''Buen trabajo!''"

definition msg_tier_0 :: string where
  "msg_tier_0 =
     ''Tu contrase'' @ [CHR 0xF1] @ ''a es extremadamente d'' @ [CHR 0xE9] @
     ''bil a ataques de fuerza bruta. Considera cambiarla de inmediato.''"

definition msg_tier_1 :: string where
  "msg_tier_1 =
     ''Tu contrase'' @ [CHR 0xF1] @ ''a es muy d'' @ [CHR 0xE9] @
     ''bil a ataques de fuerza bruta. Se recomienda mejorarla para mayor seguridad.''"

definition msg_tier_2 :: string where
  "msg_tier_2 =
     ''Tu contrase'' @ [CHR 0xF1] @ ''a es d'' @ [CHR 0xE9] @
     ''bil a ataques de fuerza bruta. deber'' @ [CHR 0xED] @ ''a mejorarse.''"

definition msg_tier_3 :: string where
  "msg_tier_3 =
     ''Tu contrase'' @ [CHR 0xF1] @
     ''a es fuerte a ataques de fuerza bruta, pero puedes hacerla m'' @ [CHR 0xE1] @
     ''s segura.''"

definition msg_length :: string where
  "msg_length =
     ''Aumenta la longitud de tu contrase'' @ [CHR 0xF1] @
     ''a. Se recomienda al menos 12 caracteres.''"

definition msg_digits :: string where
  "msg_digits =
     ''Incluye n'' @ [CHR 0xFA] @ ''meros en tu contrase'' @ [CHR 0xF1] @
     ''a para mayor variedad.''"

definition msg_lower :: string where
  "msg_lower =
     ''Incluye letras min'' @ [CHR 0xFA] @ ''sculas en tu contrase'' @ [CHR 0xF1] @ ''a.''"

definition msg_upper :: string where
  "msg_upper =
     ''Incluye letras may'' @ [CHR 0xFA] @ ''sculas en tu contrase'' @ [CHR 0xF1] @ ''a.''"

definition msg_symbols :: string where
  "msg_symbols =
     ''Agrega s'' @ [CHR 0xED] @
     ''mbolos (como @, #, $, etc.) para aumentar la complejidad.''"

text \<open>
  \<open>improvements_list\<close> is the list the source appends to; every \<open>append\<close> is a new
  binding of it.
\<close>

definition password_improvements :: "PasswordInfo \<Rightarrow> string list" where
  "password_improvements passinfo =
     (let improvements_list = [] in
      if security passinfo = 4 then improvements_list @ [msg_very_secure]
      else
        let improvements_list =
              (if security passinfo = 0 then improvements_list @ [msg_tier_0]
               else if security passinfo = 1 then improvements_list @ [msg_tier_1]
               else if security passinfo = 2 then improvements_list @ [msg_tier_2]
               else if security passinfo = 3 then improvements_list @ [msg_tier_3]
               else improvements_list);
            improvements_list =
              (if length_pi passinfo < 12 then improvements_list @ [msg_length]
               else improvements_list);
            improvements_list =
              (if \<not> digits passinfo then improvements_list @ [msg_digits]
               else improvements_list);
            improvements_list =
              (if \<not> lower passinfo then improvements_list @ [msg_lower]
               else improvements_list);
            improvements_list =
              (if \<not> upper passinfo then improvements_list @ [msg_upper]
               else improvements_list);
            improvements_list =
              (if \<not> (highcompsymb passinfo \<or> medcompsymb passinfo \<or> lowcompsymb passinfo)
               then improvements_list @ [msg_symbols]
               else improvements_list)
        in improvements_list)"

section \<open>The duration formatter (modules/utils.py)\<close>






definition trunc :: "real \<Rightarrow> int" where
  "trunc x = (if 0 \<le> x then \<lfloor>x\<rfloor> else \<lceil>x\<rceil>)"


text \<open>
  \<open>x // y\<close> of two finite doubles, \<open>y\<close> not zero, as the interpreter computes it:
  the remainder \<open>fmod x y\<close> (\<open>mod\<close> in the interpreter, \<open>rem\<close> here) is exact and
  has the sign of \<open>x\<close>; the difference \<open>x - rem\<close> and its quotient by \<open>y\<close>
  (\<open>div\<close> in the interpreter, \<open>quot\<close> here) are each rounded to a double; the quotient
  is then snapped to an integral value. The divisors of the source are integers, so no
  intermediate result is above \<open>x\<close> in magnitude and none overflows.
\<close>

definition fmod :: "real \<Rightarrow> real \<Rightarrow> real" where
  "fmod x y = x - y * real_of_int (trunc (x / y))"

definition float_floor_div :: "real \<Rightarrow> real \<Rightarrow> real" where
  "float_floor_div vx wx =
     (let rem = fmod vx wx;
          quot = round_double (round_double (vx - rem) / wx);
          quot = (if rem \<noteq> 0 \<and> (wx < 0) \<noteq> (rem < 0) then round_double (quot - 1) else quot)
      in if quot \<noteq> 0 then
           (let floordiv = real_of_int \<lfloor>quot\<rfloor>
            in if 1 / 2 < round_double (quot - floordiv) then round_double (floordiv + 1)
               else floordiv)
         else 0)"

text \<open>
  \<open>x // c\<close> for an \<open>int c\<close>: the floor division of the integers for an \<open>int x\<close>; for
  a \<open>float x\<close> the divisor is converted to a \<open>float\<close> first, and an infinity or a
  NaN gives a NaN.
\<close>

fun floordiv :: "pynum \<Rightarrow> int \<Rightarrow> error + pynum" where
  "floordiv (PyInt n) c = (if c = 0 then Inl ZeroDivisionError else Inr (PyInt (n div c)))"
| "floordiv (PyFloat x) c =
     (case float_of_int c of
        Inl e \<Rightarrow> Inl e
      | Inr wx \<Rightarrow>
          if wx = 0 then Inl ZeroDivisionError
          else Inr (PyFloat (case x of Finite vx \<Rightarrow> Finite (float_floor_div vx wx)
                                     | _ \<Rightarrow> NaN)))"








section \<open>Notions of the specification\<close>

text \<open>
  The alphabet estimate: the sum of the weights of the present slots, the two lower
  symbol tiers weighing cumulatively.
\<close>

definition slot_weight_sum :: "PasswordInfo \<Rightarrow> int" where
  "slot_weight_sum p =
     (if digits p then 10 else 0) + (if lower p then 26 else 0) + (if upper p then 26 else 0) +
     (if highcompsymb p then 8 else 0) + (if medcompsymb p then 8 + 5 else 0) +
     (if lowcompsymb p then 8 + 5 + 19 else 0)"

definition category_present :: "PasswordInfo \<Rightarrow> bool" where
  "category_present p =
     (digits p \<or> lower p \<or> upper p \<or> highcompsymb p \<or> medcompsymb p \<or> lowcompsymb p)"

text \<open>Every category present in \<open>p\<close> is present in \<open>q\<close>.\<close>

definition categories_le :: "PasswordInfo \<Rightarrow> PasswordInfo \<Rightarrow> bool" where
  "categories_le p q =
     ((digits p \<longrightarrow> digits q) \<and> (lower p \<longrightarrow> lower q) \<and> (upper p \<longrightarrow> upper q) \<and>
      (highcompsymb p \<longrightarrow> highcompsymb q) \<and> (medcompsymb p \<longrightarrow> medcompsymb q) \<and>
      (lowcompsymb p \<longrightarrow> lowcompsymb q))"

text \<open>The weakness message of a tier below 4.\<close>

definition tier_message :: "nat \<Rightarrow> string" where
  "tier_message t =
     (if t = 0 then msg_tier_0 else if t = 1 then msg_tier_1
      else if t = 2 then msg_tier_2 else msg_tier_3)"

text \<open>The five checks that follow the weakness message, each on its own, in their order.\<close>

definition improvement_checks :: "PasswordInfo \<Rightarrow> string list" where
  "improvement_checks p =
     (if length_pi p < 12 then [msg_length] else []) @
     (if \<not> digits p then [msg_digits] else []) @
     (if \<not> lower p then [msg_lower] else []) @
     (if \<not> upper p then [msg_upper] else []) @
     (if \<not> highcompsymb p \<and> \<not> medcompsymb p \<and> \<not> lowcompsymb p then [msg_symbols] else [])"


text \<open>A time that is not above zero: a finite value at most 0, or minus infinity.\<close>

definition not_positive :: "pyfloat \<Rightarrow> bool" where
  "not_positive r = (case r of Finite t \<Rightarrow> t \<le> 0 | NegInf \<Rightarrow> True | _ \<Rightarrow> False)"




section \<open>Sizes of the character classes\<close>

lemma len_DIGITS: "len_set DIGITS = 10"
  unfolding len_set_def DIGITS_def by simp

lemma len_LOWER: "len_set LOWER = 26"
  unfolding len_set_def LOWER_def by simp

lemma len_UPPER: "len_set UPPER = 26"
  unfolding len_set_def UPPER_def by simp

lemma len_HIGH: "len_set HIGH_COMP_SYMB = 8"
  unfolding len_set_def HIGH_COMP_SYMB_def by simp

lemma len_MED: "len_set MED_COMP_SYMB = 5"
  unfolding len_set_def MED_COMP_SYMB_def by simp

lemma len_LOW: "len_set LOW_COMP_SYMB = 19"
  unfolding len_set_def LOW_COMP_SYMB_def by simp

section \<open>The number of combinations\<close>

lemma calc_slot_weight_sum:
  "calc_password_combinations p = slot_weight_sum p ^ length_pi p"
  unfolding calc_password_combinations_def slot_weight_sum_def Let_def
  by (simp add: len_DIGITS len_LOWER len_UPPER len_HIGH len_MED len_LOW)

lemma slot_weight_sum_nonneg: "0 \<le> slot_weight_sum p"
  unfolding slot_weight_sum_def by simp

lemma slot_weight_sum_pos: "category_present p \<Longrightarrow> 1 \<le> slot_weight_sum p"
  unfolding slot_weight_sum_def category_present_def by auto

lemma slot_weight_sum_mono: "categories_le p q \<Longrightarrow> slot_weight_sum p \<le> slot_weight_sum q"
  unfolding slot_weight_sum_def categories_le_def by auto

lemma slot_weight_sum_length_update:
  "slot_weight_sum (p\<lparr>length_pi := n\<rparr>) = slot_weight_sum p"
  unfolding slot_weight_sum_def by simp

text \<open>
  Claim C1. For every password profile, \<open>calc_password_combinations\<close> is the sum of the
  weights of the present slots raised to the power of the length, where the weights are
  digits 10, lowercase 26, uppercase 26, high-compatibility symbols 8, the medium slot
  8 + 5 = 13 and the low slot 8 + 5 + 19 = 32 (the sizes of the classes, cumulated over
  the symbol tiers); an absent slot contributes 0.
\<close>

theorem calc_password_combinations_weights:
  "calc_password_combinations p =
     ((if digits p then 10 else 0) + (if lower p then 26 else 0) +
      (if upper p then 26 else 0) + (if highcompsymb p then 8 else 0) +
      (if medcompsymb p then 13 else 0) + (if lowcompsymb p then 32 else 0)) ^ length_pi p
   \<and> len_set DIGITS = 10 \<and> len_set LOWER = 26 \<and> len_set UPPER = 26
   \<and> len_set HIGH_COMP_SYMB = 8
   \<and> len_set HIGH_COMP_SYMB + len_set MED_COMP_SYMB = 13
   \<and> len_set HIGH_COMP_SYMB + len_set MED_COMP_SYMB + len_set LOW_COMP_SYMB = 32"
  by (simp add: calc_slot_weight_sum slot_weight_sum_def
      len_DIGITS len_LOWER len_UPPER len_HIGH len_MED len_LOW)

text \<open>
  Claim C5. \<open>calc_password_combinations\<close> does not decrease when the length grows, for
  a profile with at least one category present; and for a fixed length it does not
  decrease when the set of present categories grows.
\<close>

theorem calc_password_combinations_mono:
  "(category_present p \<longrightarrow> n \<le> m \<longrightarrow>
      calc_password_combinations (p\<lparr>length_pi := n\<rparr>)
        \<le> calc_password_combinations (p\<lparr>length_pi := m\<rparr>)) \<and>
   (categories_le p q \<longrightarrow> length_pi p = length_pi q \<longrightarrow>
      calc_password_combinations p \<le> calc_password_combinations q)"
proof (intro conjI impI)
  assume "category_present p" and "n \<le> m"
  then show "calc_password_combinations (p\<lparr>length_pi := n\<rparr>)
        \<le> calc_password_combinations (p\<lparr>length_pi := m\<rparr>)"
    by (simp add: calc_slot_weight_sum slot_weight_sum_length_update power_increasing
        slot_weight_sum_pos)
next
  assume "categories_le p q" and "length_pi p = length_pi q"
  then show "calc_password_combinations p \<le> calc_password_combinations q"
    by (simp add: calc_slot_weight_sum power_mono slot_weight_sum_mono slot_weight_sum_nonneg)
qed

theorem calc_password_combinations_mono_witness:
  "category_present (PasswordInfo_init\<lparr>lower := True\<rparr>) \<and> (2::nat) \<le> 3 \<and>
   calc_password_combinations (PasswordInfo_init\<lparr>lower := True, length_pi := 2\<rparr>) = 676 \<and>
   calc_password_combinations (PasswordInfo_init\<lparr>lower := True, length_pi := 3\<rparr>) = 17576 \<and>
   calc_password_combinations (PasswordInfo_init\<lparr>lower := True, length_pi := 2\<rparr>)
     \<le> calc_password_combinations (PasswordInfo_init\<lparr>lower := True, length_pi := 3\<rparr>) \<and>
   categories_le (PasswordInfo_init\<lparr>lower := True, length_pi := 2\<rparr>)
     (PasswordInfo_init\<lparr>lower := True, digits := True, length_pi := 2\<rparr>) \<and>
   calc_password_combinations (PasswordInfo_init\<lparr>lower := True, length_pi := 2\<rparr>)
     \<le> calc_password_combinations
          (PasswordInfo_init\<lparr>lower := True, digits := True, length_pi := 2\<rparr>)"
  using calc_password_combinations_mono
    [of "PasswordInfo_init\<lparr>lower := True\<rparr>" 2 3
        "PasswordInfo_init\<lparr>lower := True, digits := True, length_pi := 2\<rparr>"]
  by (simp add: category_present_def categories_le_def PasswordInfo_init_def
      calc_slot_weight_sum slot_weight_sum_def)

text \<open>
  Claim C6. For every profile of length 0, also the one with every category flag false
  (weight sum 0), \<open>calc_password_combinations\<close> returns 1.
\<close>

theorem calc_password_combinations_length_0:
  "length_pi p = 0 \<longrightarrow> calc_password_combinations p = 1"
  by (simp add: calc_slot_weight_sum)

theorem calc_password_combinations_length_0_witness:
  "length_pi PasswordInfo_init = 0 \<and> \<not> category_present PasswordInfo_init \<and>
   slot_weight_sum PasswordInfo_init = 0 \<and> calc_password_combinations PasswordInfo_init = 1"
  using calc_password_combinations_length_0 [of PasswordInfo_init]
  by (simp add: PasswordInfo_init_def category_present_def slot_weight_sum_def)

text \<open>
  The profile of the password \<open>abc\<close>: length 3, lowercase only, and so
  \<open>26 ^ 3\<close> combinations.
\<close>

lemma analyze_password_props_abc:
  "analyze_password_props ''abc'' PasswordInfo_init =
     PasswordInfo_init\<lparr>length_pi := 3, lower := True\<rparr> \<and>
   calc_password_combinations (analyze_password_props ''abc'' PasswordInfo_init) = 26 ^ 3"
  by (simp add: analyze_password_props_def password_has_chartype_def PasswordInfo_init_def
      DIGITS_def LOWER_def UPPER_def HIGH_COMP_SYMB_def MED_COMP_SYMB_def LOW_COMP_SYMB_def
      calc_slot_weight_sum slot_weight_sum_def)

section \<open>Membership in the character classes\<close>

lemma any_py_iff: "any_py bs \<longleftrightarrow> True \<in> set bs"
  by (induction bs) auto

lemma all_py_iff: "all_py bs \<longleftrightarrow> False \<notin> set bs"
  by (induction bs) auto

lemma password_has_chartype_iff:
  "password_has_chartype pw cs \<longleftrightarrow> (\<exists>c\<in>set pw. c \<in> cs)"
  unfolding password_has_chartype_def any_py_iff by auto

text \<open>
  Claim C7. For every string and every character set, \<open>password_has_chartype\<close> is true
  if and only if some character of the string belongs to the set. It is false for the
  empty string with every set, and a string none of whose characters is in the set gives
  false: the function is total, it has no error result.
\<close>

theorem password_has_chartype_correct:
  "(password_has_chartype pw cs \<longleftrightarrow> (\<exists>c\<in>set pw. c \<in> cs)) \<and>
   \<not> password_has_chartype [] cs \<and>
   (set pw \<inter> cs = {} \<longrightarrow> \<not> password_has_chartype pw cs)"
  unfolding password_has_chartype_iff by auto

theorem password_has_chartype_correct_witness:
  "set ''abc'' \<inter> DIGITS = {} \<and> \<not> password_has_chartype ''abc'' DIGITS \<and>
   (\<exists>c\<in>set ''ab1''. c \<in> DIGITS) \<and> password_has_chartype ''ab1'' DIGITS"
  using password_has_chartype_correct [of "''abc''" DIGITS]
    password_has_chartype_correct [of "''ab1''" DIGITS]
  by (simp add: DIGITS_def)

text \<open>
  Claim C8. For every string \<open>s\<close>, \<open>is_password_vaild s\<close> is true if and only if every
  character of \<open>s\<close> belongs to the union of the six classes: digits, lowercase,
  uppercase and the three tiers of symbols.
\<close>

theorem is_password_vaild_correct:
  "is_password_vaild s \<longleftrightarrow>
     (\<forall>c\<in>set s. c \<in> DIGITS \<union> LOWER \<union> UPPER \<union> HIGH_COMP_SYMB \<union> MED_COMP_SYMB \<union> LOW_COMP_SYMB)"
  unfolding is_password_vaild_def all_py_iff VALID_PASS_CHARS_def by auto

theorem is_password_vaild_correct_witness:
  "is_password_vaild ''aB3!_~'' \<and> \<not> is_password_vaild ''a b''"
  using is_password_vaild_correct [of "''aB3!_~''"] is_password_vaild_correct [of "''a b''"]
  by (simp add: DIGITS_def LOWER_def UPPER_def HIGH_COMP_SYMB_def MED_COMP_SYMB_def
      LOW_COMP_SYMB_def)

section \<open>The security tier\<close>

lemma set_password_security_quadruple:
  "set_password_security s [T0, T1, T2, T3] p =
     Inr (p\<lparr>security :=
       (if 0 \<le> s \<and> s \<le> T0 then 0 else if T0 < s \<and> s \<le> T1 then 1
        else if T1 < s \<and> s \<le> T2 then 2 else if T2 < s \<and> s \<le> T3 then 3 else 4)\<rparr>)"
  by (simp add: set_password_security_def le_limit_def between_limits_def subscript_def)

lemma security_update_eq: "(p\<lparr>security := a\<rparr> = p\<lparr>security := b\<rparr>) \<longleftrightarrow> a = b"
proof
  assume "p\<lparr>security := a\<rparr> = p\<lparr>security := b\<rparr>"
  then have "security (p\<lparr>security := a\<rparr>) = security (p\<lparr>security := b\<rparr>)"
    by simp
  then show "a = b" by simp
qed simp

text \<open>
  Claim C2. For every non-negative number of seconds and every strictly ascending
  quadruple of thresholds \<open>T0 < T1 < T2 < T3\<close>, \<open>set_password_security\<close> raises
  nothing and assigns exactly one tier from 0 to 4, leaving the other attributes as
  they were: tier 0 iff \<open>seconds \<le> T0\<close>, tier 1 iff \<open>T0 < seconds \<le> T1\<close>, tier 2
  iff \<open>T1 < seconds \<le> T2\<close>, tier 3 iff \<open>T2 < seconds \<le> T3\<close>, tier 4 iff
  \<open>seconds > T3\<close>. With the thresholds 1, 3600, 86400 and 31536000, half a second
  is of tier 0 and 31536001 seconds are of tier 4.
\<close>

theorem set_password_security_partition:
  "(0 \<le> s \<and> T0 < T1 \<and> T1 < T2 \<and> T2 < T3 \<longrightarrow>
      (\<exists>tier. tier \<le> 4 \<and>
         set_password_security s [T0, T1, T2, T3] p = Inr (p\<lparr>security := tier\<rparr>)) \<and>
      (set_password_security s [T0, T1, T2, T3] p = Inr (p\<lparr>security := 0\<rparr>)
         \<longleftrightarrow> s \<le> T0) \<and>
      (set_password_security s [T0, T1, T2, T3] p = Inr (p\<lparr>security := 1\<rparr>)
         \<longleftrightarrow> T0 < s \<and> s \<le> T1) \<and>
      (set_password_security s [T0, T1, T2, T3] p = Inr (p\<lparr>security := 2\<rparr>)
         \<longleftrightarrow> T1 < s \<and> s \<le> T2) \<and>
      (set_password_security s [T0, T1, T2, T3] p = Inr (p\<lparr>security := 3\<rparr>)
         \<longleftrightarrow> T2 < s \<and> s \<le> T3) \<and>
      (set_password_security s [T0, T1, T2, T3] p = Inr (p\<lparr>security := 4\<rparr>)
         \<longleftrightarrow> T3 < s)) \<and>
   set_password_security (1 / 2) [1, 3600, 86400, 31536000] p = Inr (p\<lparr>security := 0\<rparr>) \<and>
   set_password_security 31536001 [1, 3600, 86400, 31536000] p = Inr (p\<lparr>security := 4\<rparr>)"
  unfolding set_password_security_quadruple sum.inject security_update_eq
  by auto

theorem set_password_security_partition_witness:
  "(0::real) \<le> 5000 \<and> (1::real) < 3600 \<and> (3600::real) < 86400 \<and>
   (86400::real) < 31536000 \<and>
   set_password_security 5000 [1, 3600, 86400, 31536000] PasswordInfo_init
     = Inr (PasswordInfo_init\<lparr>security := 2\<rparr>) \<and>
   set_password_security 5000 [1, 3600, 86400, 31536000] PasswordInfo_init
     \<noteq> Inr (PasswordInfo_init\<lparr>security := 1\<rparr>)"
  using set_password_security_partition [of 5000 1 3600 86400 31536000 PasswordInfo_init]
  by (simp add: security_update_eq)

text \<open>
  Claim C10. For every strictly negative break time, \<open>set_password_security\<close> assigns
  tier 4: the first branch asks for \<open>0 \<le> bruteforce_time\<close>, and the lower bound of
  every other branch, a threshold that is not negative, is not below a negative time.
\<close>

theorem set_password_security_negative:
  "bt < 0 \<and> 0 \<le> T0 \<and> 0 \<le> T1 \<and> 0 \<le> T2 \<longrightarrow>
     set_password_security bt [T0, T1, T2, T3] p = Inr (p\<lparr>security := 4\<rparr>)"
  unfolding set_password_security_quadruple by auto

theorem set_password_security_negative_witness:
  "(- 1::real) < 0 \<and>
   set_password_security (- 1) [1, 3600, 86400, 31536000] PasswordInfo_init
     = Inr (PasswordInfo_init\<lparr>security := 4\<rparr>)"
  using set_password_security_negative [of "- 1" 1 3600 86400 31536000 PasswordInfo_init]
  by simp

section \<open>The suggestions\<close>

lemma messages_distinct:
  "distinct [msg_very_secure, msg_tier_0, msg_tier_1, msg_tier_2, msg_tier_3, msg_length,
     msg_digits, msg_lower, msg_upper, msg_symbols]"
  by (simp add: msg_very_secure_def msg_tier_0_def msg_tier_1_def msg_tier_2_def
      msg_tier_3_def msg_length_def msg_digits_def msg_lower_def msg_upper_def
      msg_symbols_def)

text \<open>
  Claim C3. For every profile and tier, \<open>password_improvements\<close> is a function of the
  profile that keeps a fixed order. At tier 4 it returns the single message that the
  password is already strong. At a tier below 4 it returns the weakness message of the
  tier first, then, in this order, the message on the length if the length is below 12,
  on digits if there is none, on lowercase if there is none, on uppercase if there is
  none, and on symbols if all three symbol classes are absent. A profile of tier 2 and
  length 6 with digits only gives the tier-2 message, then the messages on the length,
  lowercase, uppercase and symbols.
\<close>

theorem password_improvements_ordered:
  "(security p = 4 \<longrightarrow> password_improvements p = [msg_very_secure]) \<and>
   (security p < 4 \<longrightarrow>
      password_improvements p = tier_message (security p) # improvement_checks p) \<and>
   password_improvements
     \<lparr>length_pi = 6, digits = True, lower = False, upper = False, highcompsymb = False,
      medcompsymb = False, lowcompsymb = False, security = 2\<rparr>
     = [msg_tier_2, msg_length, msg_lower, msg_upper, msg_symbols]"
  unfolding password_improvements_def improvement_checks_def tier_message_def Let_def
  by auto

theorem password_improvements_ordered_witness:
  "security (PasswordInfo_init\<lparr>security := 4\<rparr>) = 4 \<and>
   password_improvements (PasswordInfo_init\<lparr>security := 4\<rparr>) = [msg_very_secure] \<and>
   security (PasswordInfo_init\<lparr>length_pi := 14, lower := True, upper := True\<rparr>) < 4 \<and>
   password_improvements (PasswordInfo_init\<lparr>length_pi := 14, lower := True, upper := True\<rparr>)
     = [msg_tier_0, msg_digits, msg_symbols]"
  using password_improvements_ordered [of "PasswordInfo_init\<lparr>security := 4\<rparr>"]
    password_improvements_ordered
      [of "PasswordInfo_init\<lparr>length_pi := 14, lower := True, upper := True\<rparr>"]
  by (simp add: PasswordInfo_init_def tier_message_def improvement_checks_def)

section \<open>Rounding to a double\<close>

lemma rhe_int [simp]: "round_half_even (real_of_int n) = n"
  by (simp add: round_half_even_def)

lemma rhe_bounds: "\<bar>real_of_int (round_half_even x) - x\<bar> \<le> 1 / 2"
  unfolding round_half_even_def Let_def by (auto simp: abs_if) linarith+

lemma rhe_mono: "x \<le> y \<Longrightarrow> round_half_even x \<le> round_half_even y"
proof -
  assume le: "x \<le> y"
  have fl: "\<lfloor>x\<rfloor> \<le> \<lfloor>y\<rfloor>" using le by (rule floor_mono)
  show ?thesis
  proof (cases "\<lfloor>x\<rfloor> = \<lfloor>y\<rfloor>")
    case True
    with le show ?thesis unfolding round_half_even_def Let_def by auto
  next
    case False
    with fl have "\<lfloor>x\<rfloor> + 1 \<le> \<lfloor>y\<rfloor>" by simp
    moreover have "round_half_even x \<le> \<lfloor>x\<rfloor> + 1"
      unfolding round_half_even_def Let_def by auto
    moreover have "\<lfloor>y\<rfloor> \<le> round_half_even y"
      unfolding round_half_even_def Let_def by auto
    ultimately show ?thesis by linarith
  qed
qed

lemma rhe_nonneg: "0 \<le> x \<Longrightarrow> 0 \<le> round_half_even x"
  using rhe_mono [of 0 x] rhe_int [of 0] by simp

lemma rhe_nonpos: "x \<le> 0 \<Longrightarrow> round_half_even x \<le> 0"
  using rhe_mono [of x 0] rhe_int [of 0] by simp

lemma rhe_below_half: "x < real_of_int n - 1 / 2 \<Longrightarrow> round_half_even x \<le> n - 1"
proof -
  assume "x < real_of_int n - 1 / 2"
  with rhe_bounds [of x] have "real_of_int (round_half_even x) < real_of_int n" 
    by (simp add: abs_if split: if_splits)
  then show ?thesis by simp
qed

lemma rhe_above_half: "real_of_int n - 1 / 2 \<le> x \<Longrightarrow> even n \<Longrightarrow> n \<le> round_half_even x"
proof -
  assume x: "real_of_int n - 1 / 2 \<le> x" and ev: "even n"
  show ?thesis
  proof (cases "real_of_int n \<le> x")
    case True
    then show ?thesis using rhe_mono [of "real_of_int n" x] by simp
  next
    case False
    with x have fl: "\<lfloor>x\<rfloor> = n - 1" by linarith
    with ev have odd: "odd \<lfloor>x\<rfloor>" by simp
    from x fl have "1 / 2 \<le> x - real_of_int \<lfloor>x\<rfloor>" by simp
    with odd fl show ?thesis unfolding round_half_even_def Let_def by auto
  qed
qed

lemma rhe_minus: "round_half_even (- x) = - round_half_even x"
proof (cases "x = real_of_int \<lfloor>x\<rfloor>")
  case True
  then obtain n where "x = real_of_int n" ..
  then show ?thesis by (simp flip: of_int_minus)
next
  case False
  then have fl: "\<lfloor>- x\<rfloor> = - \<lfloor>x\<rfloor> - 1" by linarith
  have par: "even (- \<lfloor>x\<rfloor> - 1) \<longleftrightarrow> odd \<lfloor>x\<rfloor>" by simp
  show ?thesis
    unfolding round_half_even_def Let_def fl par by (auto simp: field_simps)
qed

lemma ilog2_bounds:
  assumes "0 < x"
  shows "2 powi ilog2 x \<le> x" and "x < 2 powi (ilog2 x + 1)"
proof -
  have "2 powi ilog2 x \<le> x \<and> x < 2 powi (ilog2 x + 1)"
  proof (cases "1 \<le> x")
    case True
    then have pos: "0 < \<lfloor>x\<rfloor>" by simp
    define k where "k = bitlen \<lfloor>x\<rfloor>"
    from pos have k1: "1 \<le> k" unfolding k_def by (simp add: bitlen_alt_def)
    from bitlen_bounds [OF pos] have lo: "2 ^ nat (k - 1) \<le> \<lfloor>x\<rfloor>" and hi: "\<lfloor>x\<rfloor> < 2 ^ nat k"
      unfolding k_def by simp_all
    have e: "ilog2 x = k - 1" using True by (simp add: ilog2_def k_def)
    from lo have "real_of_int (2 ^ nat (k - 1)) \<le> real_of_int \<lfloor>x\<rfloor>"
      by (simp only: of_int_le_iff)
    also have "real_of_int \<lfloor>x\<rfloor> \<le> x" by simp
    finally have low: "(2::real) ^ nat (k - 1) \<le> x" by simp
    from hi have "\<lfloor>x\<rfloor> + 1 \<le> 2 ^ nat k" by simp
    then have "real_of_int (\<lfloor>x\<rfloor> + 1) \<le> real_of_int (2 ^ nat k)"
      by (simp only: of_int_le_iff)
    moreover have "x < real_of_int (\<lfloor>x\<rfloor> + 1)" by linarith
    ultimately have "x < real_of_int (2 ^ nat k)" by (rule less_le_trans [rotated])
    then have high: "x < (2::real) ^ nat k" by simp
    from low high show ?thesis using k1 unfolding e by (simp add: power_int_def)
  next
    case False
    with assms have y1: "1 < 1 / x" by simp
    define c where "c = \<lceil>1 / x\<rceil>"
    from y1 have c2: "0 < c - 1" unfolding c_def by linarith
    define k where "k = bitlen (c - 1)"
    from c2 have k1: "1 \<le> k" unfolding k_def by (simp add: bitlen_alt_def)
    from bitlen_bounds [OF c2] have lo: "2 ^ nat (k - 1) \<le> c - 1" and hi: "c - 1 < 2 ^ nat k"
      unfolding k_def by simp_all
    have e: "ilog2 x = - k" using False by (simp add: ilog2_def k_def c_def)
    from hi have "c \<le> 2 ^ nat k" by simp
    then have "real_of_int c \<le> real_of_int (2 ^ nat k)" by (simp only: of_int_le_iff)
    moreover have "1 / x \<le> real_of_int c" unfolding c_def by linarith
    ultimately have "1 / x \<le> real_of_int (2 ^ nat k)" by (rule order_trans [rotated])
    then have a: "1 / x \<le> 2 ^ nat k" by simp
    from lo have "real_of_int (2 ^ nat (k - 1)) \<le> real_of_int (c - 1)"
      by (simp only: of_int_le_iff)
    moreover have "real_of_int (c - 1) < 1 / x" unfolding c_def by linarith
    ultimately have "real_of_int (2 ^ nat (k - 1)) < 1 / x" by (rule le_less_trans)
    then have b: "2 ^ nat (k - 1) < 1 / x" by simp
    from a assms have low: "1 / 2 ^ nat k \<le> x"
      by (simp add: field_simps)
    from b assms have high: "x < 1 / 2 ^ nat (k - 1)"
      by (simp add: field_simps)
    have p1: "(2::real) powi (- k) = 1 / 2 ^ nat k"
      using k1 by (simp add: power_int_minus power_int_def inverse_eq_divide power_divide)
    have "(2::real) powi (- (k - 1)) = 1 / 2 ^ nat (k - 1)"
      using k1 by (simp only: power_int_minus) (simp add: power_int_def inverse_eq_divide power_divide)
    then have p2: "(2::real) powi (- k + 1) = 1 / 2 ^ nat (k - 1)"
      by (simp add: algebra_simps)
    from low high show ?thesis unfolding e p1 p2 by simp
  qed
  then show "2 powi ilog2 x \<le> x" and "x < 2 powi (ilog2 x + 1)" by simp_all
qed


lemma double_exp_upper: "x \<noteq> 0 \<Longrightarrow> \<bar>x\<bar> < 2 powi (double_exp x + 1)"
proof -
  assume "x \<noteq> 0"
  then have "\<bar>x\<bar> < 2 powi (ilog2 \<bar>x\<bar> + 1)" by (intro ilog2_bounds) simp
  also have "\<dots> \<le> 2 powi (double_exp x + 1)"
    by (rule power_int_increasing) (simp_all add: double_exp_def)
  finally show ?thesis .
qed

lemma double_exp_lower:
  "x \<noteq> 0 \<Longrightarrow> - 1022 < double_exp x \<Longrightarrow> 2 powi double_exp x \<le> \<bar>x\<bar>"
proof -
  assume "x \<noteq> 0" and "- 1022 < double_exp x"
  then have "double_exp x = ilog2 \<bar>x\<bar>" by (simp add: double_exp_def max_def split: if_splits)
  with \<open>x \<noteq> 0\<close> show ?thesis using ilog2_bounds(1) [of "\<bar>x\<bar>"] by simp
qed

lemma double_exp_minus [simp]: "double_exp (- x) = double_exp x"
  by (simp add: double_exp_def)

lemma double_exp_ge: "2 powi k \<le> \<bar>x\<bar> \<Longrightarrow> k \<le> double_exp x"
proof (rule ccontr)
  assume le: "2 powi k \<le> \<bar>x\<bar>" and "\<not> k \<le> double_exp x"
  then have "double_exp x + 1 \<le> k" by simp
  then have "(2::real) powi (double_exp x + 1) \<le> 2 powi k"
    by (rule power_int_increasing) simp
  moreover have pos: "(0::real) < 2 powi k" by simp
  have "x \<noteq> 0"
  proof
    assume "x = 0"
    with le pos show False by linarith
  qed
  ultimately show False using double_exp_upper [of x] le by linarith
qed

lemma double_exp_less:
  "x \<noteq> 0 \<Longrightarrow> \<bar>x\<bar> < 2 powi k \<Longrightarrow> - 1022 < k \<Longrightarrow> double_exp x < k"
proof (rule ccontr)
  assume nz: "x \<noteq> 0" and lt: "\<bar>x\<bar> < 2 powi k" and k: "- 1022 < k"
    and "\<not> double_exp x < k"
  then have ge: "k \<le> double_exp x" by simp
  with k have "- 1022 < double_exp x" by simp
  with nz have "2 powi double_exp x \<le> \<bar>x\<bar>" by (rule double_exp_lower)
  moreover from ge have "(2::real) powi k \<le> 2 powi double_exp x"
    by (rule power_int_increasing) simp
  ultimately show False using lt by linarith
qed

lemma round_double_minus: "round_double (- x) = - round_double x"
  by (simp add: round_double_def Let_def rhe_minus)

lemma round_double_nonneg: "0 \<le> x \<Longrightarrow> 0 \<le> round_double x"
  by (simp add: round_double_def Let_def rhe_nonneg)

lemma round_double_nonpos: "x \<le> 0 \<Longrightarrow> round_double x \<le> 0"
  using round_double_nonneg [of "- x"] by (simp add: round_double_minus)

lemma round_double_int_pos:
  assumes "0 < n" and "n < 2 ^ 53"
  shows "round_double (real_of_int n) = real_of_int n"
proof -
  let ?x = "real_of_int n"
  let ?e = "double_exp ?x"
  from assms have nz: "?x \<noteq> 0" and abs: "\<bar>?x\<bar> = ?x" by simp_all
  have "2 powi 0 \<le> \<bar>?x\<bar>" using assms by simp
  then have e0: "0 \<le> ?e" by (rule double_exp_ge)
  have "\<bar>?x\<bar> < 2 powi 53" using assms by simp
  with nz have "?e < 53" by (rule double_exp_less) simp
  then have e52: "?e \<le> 52" by simp
  define j where "j = nat (52 - ?e)"
  have "?e - 52 = - int j" using e52 by (simp add: j_def)
  then have q: "(2::real) powi (?e - 52) = 1 / 2 ^ j"
    by (simp add: power_int_minus inverse_eq_divide)
  have "?x / (1 / 2 ^ j) = real_of_int (n * 2 ^ j)" by simp
  then have "round_half_even (?x / (1 / 2 ^ j)) = n * 2 ^ j" by (simp only: rhe_int)
  then show ?thesis using nz by (simp add: round_double_def Let_def q)
qed

lemma round_double_int: "\<bar>n\<bar> < 2 ^ 53 \<Longrightarrow> round_double (real_of_int n) = real_of_int n"
proof -
  assume b: "\<bar>n\<bar> < 2 ^ 53"
  consider "n = 0" | "0 < n" | "n < 0" by linarith
  then show ?thesis
  proof cases
    case 1
    then show ?thesis by (simp add: round_double_def)
  next
    case 2
    with b show ?thesis by (simp add: round_double_int_pos)
  next
    case 3
    with b have "round_double (real_of_int (- n)) = real_of_int (- n)"
      by (intro round_double_int_pos) simp_all
    then show ?thesis by (simp add: round_double_minus)
  qed
qed


lemma round_double_pos_overflow:
  assumes pos: "0 < x"
  shows "round_double x < 2 ^ 1024 \<longleftrightarrow> x < 2 ^ 1024 - 2 ^ 970"
proof -
  define e where "e = double_exp x"
  define q :: real where "q = 2 powi (e - 52)"
  define m where "m = round_half_even (x / q)"
  from pos have nz: "x \<noteq> 0" and abs: "\<bar>x\<bar> = x" by simp_all
  have qpos: "0 < q" by (simp add: q_def)
  have r: "round_double x = real_of_int m * q"
    using nz by (simp add: round_double_def Let_def m_def q_def e_def)
  have split: "(2::real) powi (e + 1) = q * 2 ^ 53"
    using power_int_add [of "2::real" "e - 52" 53] by (simp add: q_def add.commute)
  have eq: "(2::real) powi e = q * 2 ^ 52"
    using power_int_add [of "2::real" "e - 52" 52] by (simp add: q_def)
  have "x < 2 powi (e + 1)" using double_exp_upper [OF nz] abs by (simp add: e_def)
  then have "x < q * 2 ^ 53" by (simp only: split)
  with qpos have xq: "x / q < 2 ^ 53" by (simp add: field_simps)
  have m53: "m \<le> 2 ^ 53"
  proof -
    have "round_half_even (x / q) \<le> round_half_even (real_of_int (2 ^ 53))"
      by (rule rhe_mono) (use xq in simp)
    then show ?thesis by (simp only: rhe_int m_def)
  qed
  show ?thesis
  proof
    assume small: "round_double x < 2 ^ 1024"
    show "x < 2 ^ 1024 - 2 ^ 970"
    proof (rule ccontr)
      assume "\<not> x < 2 ^ 1024 - 2 ^ 970"
      then have big: "2 ^ 1024 - 2 ^ 970 \<le> x" by simp
      then have "(2::real) powi 1023 \<le> \<bar>x\<bar>" using abs by simp
      then have e1023: "1023 \<le> e" unfolding e_def by (rule double_exp_ge)
      show False
      proof (cases "e = 1023")
        case True
        then have qv: "q = 2 ^ 971" by (simp add: q_def)
        from big have "real_of_int (2 ^ 53) - 1 / 2 \<le> x / q" by (simp add: qv field_simps)
        then have "2 ^ 53 \<le> m" unfolding m_def by (rule rhe_above_half) simp
        then have "real_of_int (2 ^ 53) \<le> real_of_int m" by (simp only: of_int_le_iff)
        then have "real_of_int (2 ^ 53) * q \<le> real_of_int m * q"
          using qpos by (simp only: mult_le_cancel_right) simp
        then show False using small by (simp add: r qv)
      next
        case False
        with e1023 have e1024: "1024 \<le> e" by simp
        then have "- 1022 < double_exp x" by (simp add: e_def)
        with nz have "2 powi e \<le> x" using double_exp_lower [of x] abs by (simp add: e_def)
        then have "q * 2 ^ 52 \<le> x" by (simp only: eq)
        with qpos have "real_of_int (2 ^ 52) \<le> x / q" by (simp add: field_simps)
        then have "round_half_even (real_of_int (2 ^ 52)) \<le> m" unfolding m_def by (rule rhe_mono)
        then have "2 ^ 52 \<le> m" by (simp only: rhe_int)
        then have "real_of_int (2 ^ 52) \<le> real_of_int m" by (simp only: of_int_le_iff)
        then have "real_of_int (2 ^ 52) * q \<le> real_of_int m * q"
          using qpos by (simp only: mult_le_cancel_right) simp
        then have "q * 2 ^ 52 \<le> round_double x" by (simp add: r mult.commute)
        then have "2 powi e \<le> round_double x" by (simp only: eq)
        moreover from e1024 have "(2::real) powi 1024 \<le> 2 powi e"
          by (rule power_int_increasing) simp
        ultimately show False using small by simp
      qed
    qed
  next
    assume small: "x < 2 ^ 1024 - 2 ^ 970"
    show "round_double x < 2 ^ 1024"
    proof (cases "e \<le> 1022")
      case True
      from m53 have "real_of_int m \<le> real_of_int (2 ^ 53)" by (simp only: of_int_le_iff)
      then have "real_of_int m * q \<le> real_of_int (2 ^ 53) * q"
        using qpos by (simp only: mult_le_cancel_right) simp
      then have "round_double x \<le> q * 2 ^ 53" by (simp add: r mult.commute)
      then have "round_double x \<le> 2 powi (e + 1)" by (simp only: split)
      also from True have "(2::real) powi (e + 1) \<le> 2 powi 1023"
        by (intro power_int_increasing) simp_all
      finally show ?thesis by simp
    next
      case False
      then have lo: "1023 \<le> e" by simp
      from small have "\<bar>x\<bar> < 2 powi 1024" using abs by simp
      with nz have "double_exp x < 1024" by (rule double_exp_less) simp
      with lo have "e = 1023" by (simp add: e_def)
      then have qv: "q = 2 ^ 971" by (simp add: q_def)
      from small have "x / q < real_of_int (2 ^ 53) - 1 / 2" by (simp add: qv field_simps)
      then have "m \<le> 2 ^ 53 - 1" unfolding m_def by (rule rhe_below_half)
      then have "real_of_int m \<le> real_of_int (2 ^ 53 - 1)" by (simp only: of_int_le_iff)
      then have "real_of_int m * q \<le> real_of_int (2 ^ 53 - 1) * q"
        using qpos by (simp only: mult_le_cancel_right) simp
      then show ?thesis by (simp add: r qv)
    qed
  qed
qed

lemma to_double_cases:
  "to_double x =
     (if 2 ^ 1024 - 2 ^ 970 \<le> x then PosInf
      else if x \<le> - (2 ^ 1024 - 2 ^ 970) then NegInf
      else Finite (round_double x))"
proof -
  consider "x = 0" | "0 < x" | "x < 0" by linarith
  then show ?thesis
  proof cases
    case 1
    then show ?thesis by (simp add: to_double_def round_double_def)
  next
    case 2
    then have "0 \<le> round_double x" by (simp add: round_double_nonneg)
    with 2 round_double_pos_overflow [OF 2] show ?thesis
      by (auto simp add: to_double_def Let_def)
  next
    case 3
    then have pos: "0 < - x" by simp
    from 3 have "round_double x \<le> 0" by (simp add: round_double_nonpos)
    with 3 round_double_pos_overflow [OF pos] show ?thesis
      by (auto simp add: to_double_def Let_def round_double_minus)
  qed
qed

lemma float_of_int_cases:
  "float_of_int i =
     (if \<bar>i\<bar> < 2 ^ 1024 - 2 ^ 970 then Inr (round_double (real_of_int i))
      else Inl OverflowError)"
proof -
  have a: "\<bar>i\<bar> < 2 ^ 1024 - 2 ^ 970 \<longleftrightarrow>
      \<not> 2 ^ 1024 - 2 ^ 970 \<le> real_of_int i \<and> \<not> real_of_int i \<le> - (2 ^ 1024 - 2 ^ 970)"
  proof -
    have "real_of_int \<bar>i\<bar> < real_of_int (2 ^ 1024 - 2 ^ 970) \<longleftrightarrow> \<bar>i\<bar> < 2 ^ 1024 - 2 ^ 970"
      by (simp only: of_int_less_iff)
    then show ?thesis by (auto simp: abs_if)
  qed
  show ?thesis unfolding float_of_int_def to_double_cases a by auto
qed

lemma to_double_finite:
  "(case to_double x of Finite r \<Rightarrow> Inr (Finite r) | _ \<Rightarrow> Inl OverflowError) =
     (if \<bar>x\<bar> < 2 ^ 1024 - 2 ^ 970 then Inr (Finite (round_double x)) else Inl OverflowError)"
  unfolding to_double_cases by (simp add: abs_if)

lemma to_double_not_positive: "x \<le> 0 \<Longrightarrow> not_positive (to_double x)"
  by (auto simp add: to_double_cases not_positive_def round_double_nonpos)

lemma round_double_eqI:
  assumes "x \<noteq> 0" and "2 powi e \<le> \<bar>x\<bar>" and "\<bar>x\<bar> < 2 powi (e + 1)" and "- 1022 \<le> e"
  shows "round_double x =
    real_of_int (round_half_even (x / 2 powi (e - 52))) * 2 powi (e - 52)"
proof -
  from assms(2) have "e \<le> double_exp x" by (rule double_exp_ge)
  moreover from assms(1,3) have "double_exp x < e + 1"
    by (rule double_exp_less) (use assms(4) in simp)
  ultimately have "double_exp x = e" by simp
  with assms(1) show ?thesis by (simp add: round_double_def Let_def)
qed



lemma trunc_of_int [simp]: "trunc (real_of_int k) = k"
  by (simp add: trunc_def)



lemma round_double_1e308:
  "round_double (10 ^ 308) = 100000000000000001097906362944045541740492309677311846336810682903157585404911491537163328978494688899061249669721172515611590283743140088328307009198146046031271664502933027185697489699588559043338384466165001178426897626212945177628091195786707458122783970171784415105291802893207873272974885715430223118336"
  using round_double_eqI [of "10 ^ 308" 1023]
  by (simp add: round_half_even_def)

section \<open>The break time\<close>

text \<open>
  Claim C4, as the code has it. \<open>get_bruteforce_time\<close> is the bare division and has no
  guard. A hash rate of zero raises \<open>ZeroDivisionError\<close>, for a \<open>float\<close> zero when
  the combinations convert to a \<open>float\<close>: combinations of \<open>2 ^ 1024 - 2 ^ 970\<close> or
  more in absolute value raise \<open>OverflowError\<close> with every \<open>float\<close> hash rate. A
  \<open>float\<close> hash rate other than zero gives the quotient of the converted combinations
  rounded to a double, an infinity when it overflows; an \<open>int\<close> hash rate other than
  zero gives the quotient rounded once, and \<open>OverflowError\<close> when that overflows. A
  negative hash rate is not refused: what is returned is a time that is not above zero
  when the combinations are not negative.
\<close>

theorem get_bruteforce_time_cases:
  "get_bruteforce_time c (PyInt 0) = Inl ZeroDivisionError \<and>
   (\<bar>c\<bar> < 2 ^ 1024 - 2 ^ 970 \<longrightarrow>
      get_bruteforce_time c (PyFloat (Finite 0)) = Inl ZeroDivisionError) \<and>
   (2 ^ 1024 - 2 ^ 970 \<le> \<bar>c\<bar> \<longrightarrow> get_bruteforce_time c (PyFloat f) = Inl OverflowError) \<and>
   (\<bar>c\<bar> < 2 ^ 1024 - 2 ^ 970 \<and> h \<noteq> 0 \<longrightarrow>
      get_bruteforce_time c (PyFloat (Finite h))
        = Inr (to_double (round_double (real_of_int c) / h))) \<and>
   (k \<noteq> 0 \<longrightarrow>
      get_bruteforce_time c (PyInt k) =
        (if \<bar>real_of_int c / real_of_int k\<bar> < 2 ^ 1024 - 2 ^ 970
         then Inr (Finite (round_double (real_of_int c / real_of_int k)))
         else Inl OverflowError)) \<and>
   (0 \<le> c \<and> h < 0 \<and> get_bruteforce_time c (PyFloat (Finite h)) = Inr r \<longrightarrow> not_positive r) \<and>
   (0 \<le> c \<and> k < 0 \<and> get_bruteforce_time c (PyInt k) = Inr r \<longrightarrow> not_positive r)"
proof (intro conjI impI)
  show "get_bruteforce_time c (PyInt 0) = Inl ZeroDivisionError"
    by (simp add: get_bruteforce_time_def)
next
  assume "\<bar>c\<bar> < 2 ^ 1024 - 2 ^ 970"
  then show "get_bruteforce_time c (PyFloat (Finite 0)) = Inl ZeroDivisionError"
    by (simp add: get_bruteforce_time_def float_of_int_cases float_div_def)
next
  assume "2 ^ 1024 - 2 ^ 970 \<le> \<bar>c\<bar>"
  then show "get_bruteforce_time c (PyFloat f) = Inl OverflowError"
    by (simp add: get_bruteforce_time_def float_of_int_cases)
next
  assume "\<bar>c\<bar> < 2 ^ 1024 - 2 ^ 970 \<and> h \<noteq> 0"
  then show "get_bruteforce_time c (PyFloat (Finite h))
        = Inr (to_double (round_double (real_of_int c) / h))"
    by (simp add: get_bruteforce_time_def float_of_int_cases float_div_def)
next
  assume "k \<noteq> 0"
  then show "get_bruteforce_time c (PyInt k) =
        (if \<bar>real_of_int c / real_of_int k\<bar> < 2 ^ 1024 - 2 ^ 970
         then Inr (Finite (round_double (real_of_int c / real_of_int k)))
         else Inl OverflowError)"
    unfolding get_bruteforce_time_def truediv.simps to_double_finite by simp
next
  assume a: "0 \<le> c \<and> h < 0 \<and> get_bruteforce_time c (PyFloat (Finite h)) = Inr r"
  then have "0 \<le> round_double (real_of_int c)" by (simp add: round_double_nonneg)
  with a have "round_double (real_of_int c) / h \<le> 0" by (simp add: divide_nonneg_neg)
  then have "not_positive (to_double (round_double (real_of_int c) / h))"
    by (rule to_double_not_positive)
  with a show "not_positive r"
    by (auto simp add: get_bruteforce_time_def float_of_int_cases float_div_def
        split: if_splits)
next
  assume a: "0 \<le> c \<and> k < 0 \<and> get_bruteforce_time c (PyInt k) = Inr r"
  then have "real_of_int c / real_of_int k \<le> 0" by (simp add: divide_nonneg_neg)
  then have "not_positive (to_double (real_of_int c / real_of_int k))"
    by (rule to_double_not_positive)
  with a show "not_positive r"
    by (auto simp add: get_bruteforce_time_def split: if_splits pyfloat.splits)
qed

theorem get_bruteforce_time_cases_witness:
  "get_bruteforce_time 17576 (PyInt 0) = Inl ZeroDivisionError \<and>
   get_bruteforce_time 17576 (PyFloat (Finite 0)) = Inl ZeroDivisionError \<and>
   get_bruteforce_time (2 ^ 1024) (PyFloat (Finite 0)) = Inl OverflowError \<and>
   get_bruteforce_time 17576 (PyFloat (Finite 8)) = Inr (Finite 2197) \<and>
   get_bruteforce_time (10 ^ 308) (PyFloat (Finite (3602879701896397 / 36028797018963968)))
     = Inr PosInf \<and>
   get_bruteforce_time 17576 (PyInt 8) = Inr (Finite 2197) \<and>
   get_bruteforce_time (2 ^ 1030) (PyInt 1) = Inl OverflowError \<and>
   get_bruteforce_time 17576 (PyFloat (Finite (- 2))) = Inr (Finite (- 8788)) \<and>
   get_bruteforce_time 17576 (PyInt (- 2)) = Inr (Finite (- 8788)) \<and>
   not_positive (Finite (- 8788))"
proof -
  have a: "round_double 17576 = 17576" using round_double_int [of 17576] by simp
  have b: "round_double 2197 = 2197" using round_double_int [of 2197] by simp
  have c: "round_double (- 8788) = - 8788" using round_double_int [of "- 8788"] by simp
  show ?thesis
    using get_bruteforce_time_cases [where c = 17576 and h = 8 and k = 8 and f = "Finite 0"]
      get_bruteforce_time_cases [where c = "2 ^ 1024" and f = "Finite 0" and k = 1 and h = 1]
      get_bruteforce_time_cases [where c = "10 ^ 308" and h = "3602879701896397 / 36028797018963968" and k = 1]
      get_bruteforce_time_cases [where c = "2 ^ 1030" and k = 1 and h = 1]
      get_bruteforce_time_cases [where c = 17576 and h = "- 2" and k = "- 2" and r = "Finite (- 8788)"]
    by (simp add: a b c round_double_1e308 [simplified] to_double_cases not_positive_def)
qed

text \<open>
  Claim C4 as stated fails: with the hash rate \<open>- 1\<close>, a \<open>float\<close> or an \<open>int\<close>,
  which is not above zero, the call raises no error and returns the negative time
  \<open>- 10\<close>.
\<close>

theorem get_bruteforce_time_negative_hashrate:
  "(- 1::real) \<le> 0 \<and>
   get_bruteforce_time 10 (PyFloat (Finite (- 1))) = Inr (Finite (- 10)) \<and>
   get_bruteforce_time 10 (PyInt (- 1)) = Inr (Finite (- 10))"
proof -
  have a: "round_double 10 = 10" using round_double_int [of 10] by simp
  have b: "round_double (- 10) = - 10" using round_double_int [of "- 10"] by simp
  show ?thesis
    by (simp add: get_bruteforce_time_def float_of_int_cases float_div_def to_double_cases a b)
qed

section \<open>The duration text\<close>





























end
